theory Spec2Isabelle
  imports Main "HOL-Library.AList"
begin

section \<open>Python values and callables\<close>

text \<open>
  The container of \<^verbatim>\<open>dependify\<close> stores and calls arbitrary Python callables and keeps
  what they return. Types and functions are objects with an identity (\<open>symbol\<close>); the
  values they return are modelled by \<open>val\<close>. Heap values (lists, class instances) carry the
  identity the allocator gave them, so that Python's \<^verbatim>\<open>is\<close> on two of them compares
  identities.
\<close>

type_synonym symbol = nat
type_synonym oid = nat
type_synonym addr = nat
type_synonym ref = nat

datatype val =
    VNone
  | VBool bool
  | VInt int
  | VStr string
  | VList oid "val list"
  | VObj oid symbol "(string \<times> val) list"

type_synonym kwargs = "(string \<times> val) list"


text \<open>
  Python truthiness, as \<^verbatim>\<open>not x\<close> reads it: \<^verbatim>\<open>None\<close>, \<^verbatim>\<open>False\<close>, \<^verbatim>\<open>0\<close>, the empty
  string and the empty list are falsy; an instance of a class that defines neither
  \<^verbatim>\<open>__bool__\<close> nor \<^verbatim>\<open>__len__\<close> is truthy.
\<close>

fun truthy :: "val \<Rightarrow> bool" where
  "truthy VNone = False"
| "truthy (VBool b) = b"
| "truthy (VInt i) = (i \<noteq> 0)"
| "truthy (VStr s) = (s \<noteq> [])"
| "truthy (VList i xs) = (xs \<noteq> [])"
| "truthy (VObj i c attrs) = True"

datatype error = TypeError | Raised string

text \<open>
  One formal parameter as \<^verbatim>\<open>inspect.signature\<close> reports it: its name, its annotation
  (absent when \<^verbatim>\<open>_empty\<close>) and its default (absent when \<^verbatim>\<open>_empty\<close>).
\<close>

record param =
  pname :: string
  annotation :: "symbol option"
  default_value :: "val option"

text \<open>
  A callable object (a class or a function): the parameters of its signature, its
  truthiness as an object, and what a call computes from the bound arguments and the
  identity the allocator hands to the object it creates.
\<close>

record callable =
  parameters :: "param list"
  truthy_obj :: bool
  body :: "kwargs \<Rightarrow> oid \<Rightarrow> error + val"

type_synonym env = "symbol \<Rightarrow> callable"

text \<open>
  A class whose constructor stores every argument under the parameter's name, as
  \<^verbatim>\<open>def __init__(self, b: B): self.b = b\<close> does.
\<close>

definition plain_class :: "symbol \<Rightarrow> param list \<Rightarrow> callable" where
  "plain_class c ps =
     \<lparr>parameters = ps, truthy_obj = True, body = (\<lambda>bound i. Inr (VObj i c bound))\<rparr>"

text \<open>
  Binding keyword arguments to the parameters of a signature: a parameter takes the
  keyword of its name, else its default, else the call raises \<^verbatim>\<open>TypeError\<close>; a keyword
  that names no parameter raises \<^verbatim>\<open>TypeError\<close> too.
\<close>

fun bind_args :: "param list \<Rightarrow> kwargs \<Rightarrow> error + kwargs" where
  "bind_args [] kw = Inr []"
| "bind_args (p # ps) kw =
     (case (case map_of kw (pname p) of Some v \<Rightarrow> Some v | None \<Rightarrow> default_value p) of
        None \<Rightarrow> Inl TypeError
      | Some v \<Rightarrow>
          (case bind_args ps kw of
             Inl e \<Rightarrow> Inl e
           | Inr bound \<Rightarrow> Inr ((pname p, v) # bound)))"

definition call :: "callable \<Rightarrow> kwargs \<Rightarrow> oid \<Rightarrow> error + val" where
  "call f kw i =
     (if \<not> list_all (\<lambda>k. k \<in> set (map pname (parameters f))) (map fst kw) then Inl TypeError
      else (case bind_args (parameters f) kw of
              Inl e \<Rightarrow> Inl e
            | Inr bound \<Rightarrow> body f bound i))"

section \<open>Dictionaries\<close>

text \<open>
  A Python dict whose order is observable (\<^verbatim>\<open>kwargs\<close>, \<^verbatim>\<open>types\<close>, \<^verbatim>\<open>defaults\<close>) is an
  association list: assigning an existing key replaces its value in place, a new key is
  appended. \<^verbatim>\<open>d.update(items)\<close> and a dict comprehension assign item after item.
\<close>

definition dict_update :: "('k \<times> 'v) list \<Rightarrow> ('k \<times> 'v) list \<Rightarrow> ('k \<times> 'v) list" where
  "dict_update d items = foldl (\<lambda>acc (k, v). AList.update k v acc) d items"

definition dict_of :: "('k \<times> 'v) list \<Rightarrow> ('k \<times> 'v) list" where
  "dict_of items = dict_update [] items"

section \<open>dependency.py: class Dependency\<close>

record dependency =
  target :: symbol
  cached :: bool
  instance' :: val
  types :: "(string \<times> symbol) list"
  defaults :: "(string \<times> val) list"

text \<open>
  \<^verbatim>\<open>Dependency.__init__(self, symbol, cached=False)\<close>. The class attribute
  \<^verbatim>\<open>instance = None\<close> is what a new object reads until \<^verbatim>\<open>resolve\<close> assigns it.
\<close>

definition Dependency_init :: "env \<Rightarrow> symbol \<Rightarrow> bool \<Rightarrow> dependency" where
  "Dependency_init env symbol cached' =
     \<lparr>target = symbol,
      cached = cached',
      instance' = VNone,
      types = dict_of (List.map_filter
                (\<lambda>p. map_option (\<lambda>a. (pname p, a)) (annotation p)) (parameters (env symbol))),
      defaults = dict_of (List.map_filter
                (\<lambda>p. map_option (\<lambda>d. (pname p, d)) (default_value p)) (parameters (env symbol)))\<rparr>"

section \<open>The store\<close>

text \<open>
  Dict objects and \<^verbatim>\<open>Dependency\<close> objects are mutable and shared by reference, so they
  live in a store. \<open>dicts\<close> maps the address of a dict object to its content, \<open>deps\<close> the
  reference of a \<^verbatim>\<open>Dependency\<close> object to its fields. \<open>calls\<close> records every invocation of
  a target: which \<^verbatim>\<open>Dependency\<close> invoked it, which callable, and with which keyword
  arguments.
\<close>

record world =
  dicts :: "addr \<Rightarrow> (symbol \<rightharpoonup> ref)"
  deps :: "ref \<Rightarrow> dependency"
  next_ref :: ref
  next_oid :: oid
  calls :: "(ref \<times> symbol \<times> kwargs) list"

text \<open>
  \<^verbatim>\<open>self.target(*args, **kwargs)\<close>, with the empty \<^verbatim>\<open>args\<close> that \<^verbatim>\<open>Container.resolve\<close>
  passes.
\<close>

definition invoke_target :: "env \<Rightarrow> ref \<Rightarrow> kwargs \<Rightarrow> world \<Rightarrow> (error + val) \<times> world" where
  "invoke_target env self kw w =
     (let t = target (deps w self); i = next_oid w
      in (call (env t) kw i,
          w\<lparr>next_oid := Suc i, calls := calls w @ [(self, t, kw)]\<rparr>))"

text \<open>\<^verbatim>\<open>Dependency.resolve(self, *args, **kwargs)\<close>\<close>

definition Dependency_resolve :: "env \<Rightarrow> ref \<Rightarrow> kwargs \<Rightarrow> world \<Rightarrow> (error + val) \<times> world" where
  "Dependency_resolve env self kw w =
     (if cached (deps w self) then
        (if \<not> truthy (instance' (deps w self)) then
           (case invoke_target env self kw w of
              (Inl e, w') \<Rightarrow> (Inl e, w')
            | (Inr v, w') \<Rightarrow>
                (Inr v, w'\<lparr>deps := (deps w')(self := (deps w' self)\<lparr>instance' := v\<rparr>)\<rparr>))
         else (Inr (instance' (deps w self)), w))
      else invoke_target env self kw w)"

section \<open>container.py: class Container\<close>

record container =
  dependencies :: addr

text \<open>
  The default of \<^verbatim>\<open>dependencies\<close> in \<^verbatim>\<open>__init__\<close> is the dict object \<^verbatim>\<open>{}\<close> that Python
  evaluates once, when the \<^verbatim>\<open>def\<close> statement runs; every call that omits the argument
  receives that same object. It lives at \<open>default_dict\<close>.
\<close>

definition default_dict :: addr where
  "default_dict = 0"

definition Container_init :: "addr option \<Rightarrow> container" where
  "Container_init dependencies' =
     \<lparr>dependencies = (case dependencies' of None \<Rightarrow> default_dict | Some d \<Rightarrow> d)\<rparr>"

definition register_dependency :: "container \<Rightarrow> symbol \<Rightarrow> ref \<Rightarrow> world \<Rightarrow> world" where
  "register_dependency self symbol dependency w =
     w\<lparr>dicts := (dicts w)(dependencies self :=
           (dicts w (dependencies self))(symbol \<mapsto> dependency))\<rparr>"

text \<open>Allocation of a new \<^verbatim>\<open>Dependency\<close> object: \<^verbatim>\<open>Dependency(replacement, cached)\<close>.\<close>

definition new_Dependency :: "env \<Rightarrow> symbol \<Rightarrow> bool \<Rightarrow> world \<Rightarrow> ref \<times> world" where
  "new_Dependency env symbol cached' w =
     (next_ref w,
      w\<lparr>deps := (deps w)(next_ref w := Dependency_init env symbol cached'),
        next_ref := Suc (next_ref w)\<rparr>)"

text \<open>
  \<^verbatim>\<open>Container.register(self, symbol, replacement=None, cached=False)\<close>. The test
  \<^verbatim>\<open>if not replacement\<close> is a truthiness test: \<^verbatim>\<open>None\<close> fails it, and so does any
  callable object that is falsy.
\<close>

definition register :: "env \<Rightarrow> container \<Rightarrow> symbol \<Rightarrow> symbol option \<Rightarrow> bool \<Rightarrow> world \<Rightarrow> world" where
  "register env self symbol replacement cached' w =
     (let replacement' =
            (case replacement of
               None \<Rightarrow> symbol
             | Some r \<Rightarrow> if \<not> truthy_obj (env r) then symbol else r);
          (d, w') = new_Dependency env replacement' cached' w
      in register_dependency self symbol d w')"

definition has :: "container \<Rightarrow> symbol \<Rightarrow> world \<Rightarrow> bool" where
  "has self symbol w = (dicts w (dependencies self) symbol \<noteq> None)"

text \<open>
  \<^verbatim>\<open>Container.resolve\<close> calls itself for every annotated parameter, and nothing bounds the
  recursion: on a cycle of annotations it never returns. The model takes the depth of
  recursion it may use as fuel; \<open>None\<close> is a call that has not returned within it.
  \<open>resolve_types\<close> is the loop over \<^verbatim>\<open>dependency.types.items()\<close>, \<open>resolve'\<close> the
  recursive call.
\<close>

fun resolve_types ::
  "(symbol \<Rightarrow> world \<Rightarrow> ((error + val) \<times> world) option) \<Rightarrow>
   (string \<times> symbol) list \<Rightarrow> kwargs \<Rightarrow> world \<Rightarrow> ((error + kwargs) \<times> world) option" where
  "resolve_types resolve' [] kw w = Some (Inr kw, w)"
| "resolve_types resolve' ((name, symbol) # items) kw w =
     (case resolve' symbol w of
        None \<Rightarrow> None
      | Some (Inl e, w') \<Rightarrow> Some (Inl e, w')
      | Some (Inr inner_dep, w') \<Rightarrow>
          resolve_types resolve' items
            (if inner_dep \<noteq> VNone then AList.update name inner_dep kw else kw) w')"

primrec resolve ::
  "nat \<Rightarrow> env \<Rightarrow> container \<Rightarrow> symbol \<Rightarrow> world \<Rightarrow> ((error + val) \<times> world) option" where
  "resolve 0 env self symbol w = None"
| "resolve (Suc n) env self symbol w =
     (case dicts w (dependencies self) symbol of
        None \<Rightarrow> Some (Inr VNone, w)
      | Some dependency \<Rightarrow>
          (case resolve_types (resolve n env self)
                  (types (deps w dependency))
                  (dict_update [] (defaults (deps w dependency))) w of
             None \<Rightarrow> None
           | Some (Inl e, w') \<Rightarrow> Some (Inl e, w')
           | Some (Inr kw, w') \<Rightarrow> Some (Dependency_resolve env dependency kw w')))"

text \<open>A store in which nothing has been registered and nothing allocated.\<close>

definition world0 :: world where
  "world0 =
     \<lparr>dicts = (\<lambda>a. Map.empty),
      deps = (\<lambda>r. \<lparr>target = 0, cached = False, instance' = VNone, types = [], defaults = []\<rparr>),
      next_ref = 0, next_oid = 0, calls = []\<rparr>"

text \<open>
  Two successive calls, as in \<^verbatim>\<open>result1 = container.resolve(A); result2 = container.resolve(A)\<close>:
  the second runs in the store the first one left; an exception ends the sequence.
\<close>

definition resolve_twice ::
  "nat \<Rightarrow> env \<Rightarrow> container \<Rightarrow> symbol \<Rightarrow> world \<Rightarrow> ((error + val \<times> val) \<times> world) option" where
  "resolve_twice n env self symbol w =
     (case resolve n env self symbol w of
        None \<Rightarrow> None
      | Some (Inl e, w1) \<Rightarrow> Some (Inl e, w1)
      | Some (Inr result1, w1) \<Rightarrow>
          (case resolve n env self symbol w1 of
             None \<Rightarrow> None
           | Some (Inl e, w2) \<Rightarrow> Some (Inl e, w2)
           | Some (Inr result2, w2) \<Rightarrow> Some (Inr (result1, result2), w2)))"

text \<open>The number of times the \<^verbatim>\<open>Dependency\<close> object \<open>d\<close> has invoked its target.\<close>

definition invocations :: "ref \<Rightarrow> world \<Rightarrow> nat" where
  "invocations d w = length (filter (\<lambda>(r, t, kw). r = d) (calls w))"

text \<open>
  A call of \<^verbatim>\<open>resolve\<close> never touches a dict and allocates no \<^verbatim>\<open>Dependency\<close>; of a
  \<^verbatim>\<open>Dependency\<close> object it assigns \<^verbatim>\<open>instance\<close> only; identities are handed out in
  increasing order and the record of invocations only grows.
\<close>

definition recipes_kept :: "world \<Rightarrow> world \<Rightarrow> bool" where
  "recipes_kept w w' =
     (dicts w' = dicts w \<and> next_ref w' = next_ref w \<and> next_oid w \<le> next_oid w'
      \<and> (\<exists>cs. calls w' = calls w @ cs)
      \<and> (\<forall>r. (deps w' r)\<lparr>instance' := VNone\<rparr> = (deps w r)\<lparr>instance' := VNone\<rparr>))"

text \<open>The store with the content of the \<^verbatim>\<open>Dependency\<close> object \<open>d\<close> replaced by \<open>x\<close>.\<close>

definition overwrite :: "ref \<Rightarrow> dependency \<Rightarrow> world \<Rightarrow> world" where
  "overwrite d x w = w\<lparr>deps := (deps w)(d := x)\<rparr>"

section \<open>Argument assembly in the words of the specification\<close>

text \<open>
  Following the specification (4.3, steps 2 and 3), for comparison with \<open>resolve_types\<close>:
  for every entry of \<open>parameterTypes\<close>, resolve the declared type; the entries whose
  resolution is not not-found are the overrides.
\<close>

fun spec_overrides ::
  "(symbol \<Rightarrow> world \<Rightarrow> ((error + val) \<times> world) option) \<Rightarrow>
   (string \<times> symbol) list \<Rightarrow> world \<Rightarrow> ((error + kwargs) \<times> world) option" where
  "spec_overrides resolve' [] w = Some (Inr [], w)"
| "spec_overrides resolve' ((name, declared) # entries) w =
     (case resolve' declared w of
        None \<Rightarrow> None
      | Some (Inl e, w') \<Rightarrow> Some (Inl e, w')
      | Some (Inr v, w') \<Rightarrow>
          (case spec_overrides resolve' entries w' of
             None \<Rightarrow> None
           | Some (Inl e, w'') \<Rightarrow> Some (Inl e, w'')
           | Some (Inr overrides, w'') \<Rightarrow>
               Some (Inr (if v \<noteq> VNone then (name, v) # overrides else overrides), w'')))"

text \<open>
  The argument set of the specification: the recipe's \<open>parameterDefaults\<close>, with every
  override taking priority over a default of the same name.
\<close>

definition spec_arguments :: "kwargs \<Rightarrow> kwargs \<Rightarrow> (string \<rightharpoonup> val)" where
  "spec_arguments parameterDefaults overrides = map_of parameterDefaults ++ map_of overrides"

section \<open>Instances and their fields\<close>





section \<open>The synthesized constructor\<close>

text \<open>
  Modelled from the spec: the Field Specification of the Binder (section 3): an ordered
  sequence of fields, each with its name, its declared type and, when it has one, its
  literal default. The module that derives it from a class (\<^verbatim>\<open>decorators.py\<close>) is not
  among the sources.
\<close>

record field =
  fname :: string
  ftype :: symbol
  fdefault :: "val option"

text \<open>
  Modelled from the spec: the errors of the Binder (sections 4.4 and 7). An exception that
  a registry resolution raises leaves the constructor as it is.
\<close>

datatype binding_error =
    UnexpectedPositional
  | ArgumentConflict string
  | UnknownArgument string
  | MissingArguments "string list"
  | TypeMismatch string symbol val
  | ResolveRaised error

text \<open>
  Modelled from the spec: step 1 of the synthesized constructor (4.4), absent from the
  sources: positional argument \<open>i\<close> is bound to the name of field \<open>i\<close>; more
  positional arguments than fields are an error.
\<close>

fun bind_positional :: "field list \<Rightarrow> val list \<Rightarrow> binding_error + kwargs" where
  "bind_positional fs [] = Inr []"
| "bind_positional [] (v # vs) = Inl UnexpectedPositional"
| "bind_positional (f # fs) (v # vs) =
     (case bind_positional fs vs of
        Inl e \<Rightarrow> Inl e
      | Inr bound \<Rightarrow> Inr ((fname f, v) # bound))"

text \<open>
  Modelled from the spec: step 2 of the synthesized constructor (4.4), absent from the
  sources: a named argument already bound positionally is a conflict, one that names no
  field is unknown.
\<close>

fun bind_named :: "field list \<Rightarrow> kwargs \<Rightarrow> kwargs \<Rightarrow> binding_error + kwargs" where
  "bind_named fs pos [] = Inr []"
| "bind_named fs pos ((k, v) # named) =
     (if k \<in> set (map fst pos) then Inl (ArgumentConflict k)
      else if k \<notin> set (map fname fs) then Inl (UnknownArgument k)
      else (case bind_named fs pos named of
              Inl e \<Rightarrow> Inl e
            | Inr bound \<Rightarrow> Inr ((k, v) # bound)))"

text \<open>
  Modelled from the spec: step 3 of the synthesized constructor (4.4), absent from the
  sources, for one field. An explicitly bound field keeps its argument. Otherwise the
  fallback chain runs in this order: (a) when the declared type is registered, resolve it,
  and use the result when it is not not-found; (b) else the literal default, when there is
  one; (c) else the field is unresolved (\<open>None\<close>).
\<close>

definition fill_field ::
  "(symbol \<Rightarrow> world \<Rightarrow> ((error + val) \<times> world) option) \<Rightarrow> container \<Rightarrow> kwargs \<Rightarrow>
   field \<Rightarrow> world \<Rightarrow> ((binding_error + val option) \<times> world) option" where
  "fill_field resolve' registry bound f w =
     (case map_of bound (fname f) of
        Some v \<Rightarrow> Some (Inr (Some v), w)
      | None \<Rightarrow>
          if has registry (ftype f) w then
            (case resolve' (ftype f) w of
               None \<Rightarrow> None
             | Some (Inl e, w') \<Rightarrow> Some (Inl (ResolveRaised e), w')
             | Some (Inr v, w') \<Rightarrow> Some (Inr (if v \<noteq> VNone then Some v else fdefault f), w'))
          else Some (Inr (fdefault f), w))"

text \<open>
  Modelled from the spec: step 3 of the synthesized constructor (4.4) over the fields in
  declaration order; the store is threaded through the resolutions.
\<close>

fun fill_fields ::
  "(symbol \<Rightarrow> world \<Rightarrow> ((error + val) \<times> world) option) \<Rightarrow> container \<Rightarrow> kwargs \<Rightarrow>
   field list \<Rightarrow> world \<Rightarrow> ((binding_error + (string \<times> val option) list) \<times> world) option" where
  "fill_fields resolve' registry bound [] w = Some (Inr [], w)"
| "fill_fields resolve' registry bound (f # fs) w =
     (case fill_field resolve' registry bound f w of
        None \<Rightarrow> None
      | Some (Inl e, w') \<Rightarrow> Some (Inl e, w')
      | Some (Inr slot, w') \<Rightarrow>
          (case fill_fields resolve' registry bound fs w' of
             None \<Rightarrow> None
           | Some (Inl e, w'') \<Rightarrow> Some (Inl e, w'')
           | Some (Inr slots, w'') \<Rightarrow> Some (Inr ((fname f, slot) # slots), w'')))"

text \<open>
  Modelled from the spec: step 4 of the synthesized constructor (4.4): the names of all
  the fields still unresolved.
\<close>

definition missing :: "(string \<times> val option) list \<Rightarrow> string list" where
  "missing slots = map fst (filter (\<lambda>(name, slot). slot = None) slots)"

text \<open>
  Modelled from the spec: step 6 of the synthesized constructor (4.4): the value of every
  field, as assigned onto the new instance.
\<close>

definition assigned :: "(string \<times> val option) list \<Rightarrow> kwargs" where
  "assigned slots = List.map_filter (\<lambda>(name, slot). map_option (\<lambda>v. (name, v)) slot) slots"

text \<open>
  Modelled from the spec: step 5 of the synthesized constructor (4.4): only explicitly
  bound values are checked against the declared type. Python's \<^verbatim>\<open>isinstance\<close> is a
  parameter.
\<close>

fun type_check ::
  "(val \<Rightarrow> symbol \<Rightarrow> bool) \<Rightarrow> kwargs \<Rightarrow> field list \<Rightarrow> binding_error option" where
  "type_check isinstance bound [] = None"
| "type_check isinstance bound (f # fs) =
     (case map_of bound (fname f) of
        None \<Rightarrow> type_check isinstance bound fs
      | Some v \<Rightarrow>
          if isinstance v (ftype f) then type_check isinstance bound fs
          else Some (TypeMismatch (fname f) (ftype f) v))"

text \<open>
  Modelled from the spec: the synthesized constructor (4.4, steps 1 to 6), which
  \<^verbatim>\<open>decorators.py\<close>, absent from the sources, generates for a class \<open>cls\<close> with the
  fields \<open>fs\<close>, closed over a Registry.
\<close>

definition construct ::
  "nat \<Rightarrow> env \<Rightarrow> (val \<Rightarrow> symbol \<Rightarrow> bool) \<Rightarrow> container \<Rightarrow> symbol \<Rightarrow> field list \<Rightarrow>
   val list \<Rightarrow> kwargs \<Rightarrow> world \<Rightarrow> ((binding_error + val) \<times> world) option" where
  "construct n env isinstance registry cls fs positional named w =
     (case bind_positional fs positional of
        Inl e \<Rightarrow> Some (Inl e, w)
      | Inr pos \<Rightarrow>
          (case bind_named fs pos named of
             Inl e \<Rightarrow> Some (Inl e, w)
           | Inr nmd \<Rightarrow>
               (case fill_fields (resolve n env registry) registry (pos @ nmd) fs w of
                  None \<Rightarrow> None
                | Some (Inl e, w') \<Rightarrow> Some (Inl e, w')
                | Some (Inr slots, w') \<Rightarrow>
                    if missing slots \<noteq> [] then Some (Inl (MissingArguments (missing slots)), w')
                    else (case type_check isinstance (pos @ nmd) fs of
                            Some e \<Rightarrow> Some (Inl e, w')
                          | None \<Rightarrow>
                              Some (Inr (VObj (next_oid w') cls (assigned slots)),
                                    w'\<lparr>next_oid := Suc (next_oid w')\<rparr>)))))"

text \<open>
  Modelled from the spec: the message of MissingArguments (section 7) lists the missing
  names comma-joined; the unit tests read it after the prefix \<^verbatim>\<open>Missing arguments: \<close>.
\<close>

fun comma_join :: "string list \<Rightarrow> string" where
  "comma_join [] = []"
| "comma_join [x] = x"
| "comma_join (x # y # zs) = x @ '', '' @ comma_join (y # zs)"

text \<open>
  Modelled from the spec: the single aggregated message of MissingArguments (section 7).
\<close>

definition missing_arguments_message :: "string list \<Rightarrow> string" where
  "missing_arguments_message names = ''Missing arguments: '' @ comma_join names"

section \<open>An example program\<close>

text \<open>
  The classes and functions of the unit tests, and a few more of the same kind:
  \<^item> 1: \<^verbatim>\<open>class B: pass\<close>
  \<^item> 2: \<^verbatim>\<open>class A: def __init__(self, b: B): self.b = b\<close>
  \<^item> 3: \<^verbatim>\<open>def empty(): return []\<close>
  \<^item> 4: a callable object that is falsy (its class defines \<^verbatim>\<open>__call__\<close>, and \<^verbatim>\<open>__len__\<close>
    returning 0); calling it creates an instance of itself
  \<^item> 5: \<^verbatim>\<open>def shared(): return SHARED\<close>, where \<^verbatim>\<open>SHARED = B()\<close> was created first and has
    identity 0
  \<^item> 6: \<^verbatim>\<open>class A: def __init__(self, data: int = 3): self.data = data\<close>
  \<^item> 7: \<^verbatim>\<open>int\<close>, which the tests never register
  \<^item> 8: \<^verbatim>\<open>class Service: def __init__(self, db: B = None, port: int = 3): ...\<close>
  \<^item> 9: \<^verbatim>\<open>str\<close>, 10: \<^verbatim>\<open>bool\<close>, 11: \<^verbatim>\<open>float\<close>, 14: \<^verbatim>\<open>dict\<close>, never registered
  \<^item> 12: \<^verbatim>\<open>class Logger: def __init__(self): self.level = "INFO"\<close>
  \<^item> 13: \<^verbatim>\<open>class Database: def __init__(self): self.connected = True\<close>
\<close>

definition example_env :: env where
  "example_env s =
     (if s = 1 then plain_class 1 []
      else if s = 2 then
        plain_class 2 [\<lparr>pname = ''b'', annotation = Some 1, default_value = None\<rparr>]
      else if s = 3 then
        \<lparr>parameters = [], truthy_obj = True, body = (\<lambda>bound i. Inr (VList i []))\<rparr>
      else if s = 4 then
        \<lparr>parameters = [], truthy_obj = False, body = (\<lambda>bound i. Inr (VObj i 4 []))\<rparr>
      else if s = 5 then
        \<lparr>parameters = [], truthy_obj = True, body = (\<lambda>bound i. Inr (VObj 0 1 []))\<rparr>
      else if s = 6 then
        plain_class 6 [\<lparr>pname = ''data'', annotation = Some 7, default_value = Some (VInt 3)\<rparr>]
      else if s = 8 then
        plain_class 8 [\<lparr>pname = ''db'', annotation = Some 1, default_value = Some VNone\<rparr>,
                       \<lparr>pname = ''port'', annotation = Some 7, default_value = Some (VInt 3)\<rparr>]
      else if s = 12 then
        \<lparr>parameters = [], truthy_obj = True,
         body = (\<lambda>bound i. Inr (VObj i 12 [(''level'', VStr ''INFO'')]))\<rparr>
      else if s = 13 then
        \<lparr>parameters = [], truthy_obj = True,
         body = (\<lambda>bound i. Inr (VObj i 13 [(''connected'', VBool True)]))\<rparr>
      else plain_class s [])"

text \<open>
  \<^verbatim>\<open>isinstance\<close> on the values and types of the example: an instance belongs to its
  class, and \<^verbatim>\<open>bool\<close> is a subclass of \<^verbatim>\<open>int\<close>.
\<close>

fun example_isinstance :: "val \<Rightarrow> symbol \<Rightarrow> bool" where
  "example_isinstance (VObj i c attrs) t = (c = t)"
| "example_isinstance (VInt n) t = (t = 7)"
| "example_isinstance (VStr x) t = (t = 9)"
| "example_isinstance (VBool b) t = (t = 10 \<or> t = 7)"
| "example_isinstance v t = False"

text \<open>
  The fields of two classes of the unit tests:
  \<^verbatim>\<open>MultiClass\<close> (\<^verbatim>\<open>a: int; b: str; c: bool; d: float\<close>) and
  \<^verbatim>\<open>Service\<close> (\<^verbatim>\<open>name: str; logger: Logger; db: Database = None; config: dict = None\<close>).
\<close>

definition MultiClass_fields :: "field list" where
  "MultiClass_fields =
     [\<lparr>fname = ''a'', ftype = 7, fdefault = None\<rparr>,
      \<lparr>fname = ''b'', ftype = 9, fdefault = None\<rparr>,
      \<lparr>fname = ''c'', ftype = 10, fdefault = None\<rparr>,
      \<lparr>fname = ''d'', ftype = 11, fdefault = None\<rparr>]"

definition Service_fields :: "field list" where
  "Service_fields =
     [\<lparr>fname = ''name'', ftype = 9, fdefault = None\<rparr>,
      \<lparr>fname = ''logger'', ftype = 12, fdefault = None\<rparr>,
      \<lparr>fname = ''db'', ftype = 13, fdefault = Some VNone\<rparr>,
      \<lparr>fname = ''config'', ftype = 14, fdefault = Some VNone\<rparr>]"

section \<open>Evaluation of the model\<close>

lemmas model_defs =
  register_def register_dependency_def new_Dependency_def Container_init_def
  default_dict_def world0_def Dependency_init_def dict_of_def dict_update_def
  example_env_def plain_class_def Dependency_resolve_def invoke_target_def call_def
  has_def resolve_twice_def invocations_def Let_def List.map_filter_simps

section \<open>Dictionaries built item by item\<close>



lemma map_of_dict_update:
  "map_of (dict_update d items) = map_of d ++ map_of (rev items)"
  unfolding dict_update_def
  by (induction items arbitrary: d)
     (auto simp: update_conv' map_add_def fun_eq_iff split: option.splits)

section \<open>What resolution leaves unchanged\<close>

lemma recipes_kept_refl: "recipes_kept w w"
  by (simp add: recipes_kept_def)

lemma recipes_kept_trans:
  "recipes_kept w w' \<Longrightarrow> recipes_kept w' w'' \<Longrightarrow> recipes_kept w w''"
  by (auto simp: recipes_kept_def)

lemma recipes_kept_fields:
  assumes "recipes_kept w w'"
  shows "target (deps w' r) = target (deps w r)"
    and "cached (deps w' r) = cached (deps w r)"
    and "types (deps w' r) = types (deps w r)"
    and "defaults (deps w' r) = defaults (deps w r)"
proof -
  from assms have e: "(deps w' r)\<lparr>instance' := VNone\<rparr> = (deps w r)\<lparr>instance' := VNone\<rparr>"
    by (simp add: recipes_kept_def)
  from arg_cong[OF e, of target] show "target (deps w' r) = target (deps w r)" by simp
  from arg_cong[OF e, of cached] show "cached (deps w' r) = cached (deps w r)" by simp
  from arg_cong[OF e, of types] show "types (deps w' r) = types (deps w r)" by simp
  from arg_cong[OF e, of defaults] show "defaults (deps w' r) = defaults (deps w r)" by simp
qed

lemma Dependency_resolve_kept:
  "Dependency_resolve env d kw w = (res, w') \<Longrightarrow> recipes_kept w w'"
  by (auto simp: Dependency_resolve_def invoke_target_def recipes_kept_def Let_def
      split: if_splits sum.splits prod.splits)

lemma resolve_types_kept:
  assumes "\<And>s w res w'. resolve' s w = Some (res, w') \<Longrightarrow> recipes_kept w w'"
  shows "resolve_types resolve' items kw w = Some (res, w') \<Longrightarrow> recipes_kept w w'"
proof (induction items arbitrary: kw w)
  case Nil
  then show ?case by (simp add: recipes_kept_refl)
next
  case (Cons item items)
  obtain name symbol where item: "item = (name, symbol)" by (cases item)
  from Cons.prems obtain r w1 where r: "resolve' symbol w = Some (r, w1)"
    by (auto simp: item split: option.splits)
  have k1: "recipes_kept w w1" using assms[OF r] .
  show ?case
  proof (cases r)
    case (Inl e)
    with Cons.prems r item have "w' = w1" by simp
    with k1 show ?thesis by simp
  next
    case (Inr v)
    with Cons.prems r item
    have "resolve_types resolve' items
            (if v \<noteq> VNone then AList.update name v kw else kw) w1 = Some (res, w')"
      by simp
    from Cons.IH[OF this] k1 show ?thesis by (blast intro: recipes_kept_trans)
  qed
qed

lemma resolve_kept:
  "resolve n env c s w = Some (res, w') \<Longrightarrow> recipes_kept w w'"
proof (induction n arbitrary: s w res w')
  case 0
  then show ?case by simp
next
  case (Suc n)
  show ?case
  proof (cases "dicts w (dependencies c) s")
    case None
    with Suc.prems show ?thesis by (simp add: recipes_kept_refl)
  next
    case (Some d)
    from Suc.prems Some obtain r1 w1 where
      t: "resolve_types (resolve n env c) (types (deps w d))
            (dict_update [] (defaults (deps w d))) w = Some (r1, w1)"
      by (auto split: option.splits)
    have k1: "recipes_kept w w1"
      using resolve_types_kept[of "resolve n env c", OF Suc.IH t] .
    show ?thesis
    proof (cases r1)
      case (Inl e)
      with Suc.prems Some t have "w' = w1" by simp
      with k1 show ?thesis by simp
    next
      case (Inr kw)
      with Suc.prems Some t have "Dependency_resolve env d kw w1 = (res, w')" by simp
      from Dependency_resolve_kept[OF this] k1 show ?thesis
        by (blast intro: recipes_kept_trans)
    qed
  qed
qed





text \<open>A \<^verbatim>\<open>Dependency\<close> object that no entry of the dict refers to is never read.\<close>

lemma overwrite_simps [simp]:
  "dicts (overwrite d x w) = dicts w"
  "next_oid (overwrite d x w) = next_oid w"
  "next_ref (overwrite d x w) = next_ref w"
  "calls (overwrite d x w) = calls w"
  "r \<noteq> d \<Longrightarrow> deps (overwrite d x w) r = deps w r"
  by (simp_all add: overwrite_def)




section \<open>Unregistered symbols\<close>

text \<open>
  C5: for a symbol that is not registered in a Registry, resolve returns the not-found
  value \<^verbatim>\<open>None\<close> and raises nothing, whatever fuel the call has beyond its own frame and on
  every call (the store is left as it was); registering any other symbol in that Registry
  changes neither the answer of \<open>has\<close> nor the result of resolve.
\<close>

theorem resolve_unregistered:
  assumes "\<not> has c s w" and "s' \<noteq> s"
  shows "resolve (Suc n) env c s w = Some (Inr VNone, w)
       \<and> \<not> has c s (register env c s' r b w)
       \<and> resolve (Suc n) env c s (register env c s' r b w)
           = Some (Inr VNone, register env c s' r b w)"
  using assms
  by (simp add: has_def register_def register_dependency_def new_Dependency_def Let_def
      split: option.splits)

theorem resolve_unregistered_witness:
  "\<not> has (Container_init None) 1 world0 \<and> (2::nat) \<noteq> 1
   \<and> resolve (Suc 0) example_env (Container_init None) 1 world0 = Some (Inr VNone, world0)
   \<and> \<not> has (Container_init None) 1
         (register example_env (Container_init None) 2 None False world0)
   \<and> resolve (Suc 0) example_env (Container_init None) 1
         (register example_env (Container_init None) 2 None False world0)
       = Some (Inr VNone, register example_env (Container_init None) 2 None False world0)"
proof -
  have h: "\<not> has (Container_init None) 1 world0"
    by (simp add: has_def world0_def)
  have d: "(2::nat) \<noteq> 1" by simp
  show ?thesis
    using h d resolve_unregistered [OF h d, of 0 example_env None False] by simp
qed

section \<open>Falsy replacements\<close>



section \<open>Registries created without a dict\<close>

text \<open>
  C2 (the code at the failing input): two containers \<open>c1\<close> and \<open>c2\<close>, each created with the
  \<^verbatim>\<open>dependencies\<close> argument omitted, hold the same dict object, so a symbol registered in
  \<open>c1\<close> is registered in \<open>c2\<close>: \<open>has\<close> answers \<open>True\<close> there and resolve builds an instance.
\<close>

theorem default_containers_share_entries:
  "has (Container_init None) 1
       (register example_env (Container_init None) 1 None False world0)
   \<and> \<not> has (Container_init None) 1 world0
   \<and> map_option fst
        (resolve 1 example_env (Container_init None) 1
           (register example_env (Container_init None) 1 None False world0))
       = Some (Inr (VObj 0 1 []))"
  by (simp add: model_defs)

text \<open>Containers created over two different dict objects do not see each other.\<close>

lemma explicit_dicts_isolated:
  "a \<noteq> a' \<Longrightarrow>
     has (Container_init (Some a')) s (register env (Container_init (Some a)) s' r b w)
       = has (Container_init (Some a')) s w"
  by (simp add: has_def register_def register_dependency_def new_Dependency_def
      Container_init_def Let_def)

section \<open>Cached recipes\<close>

text \<open>
  C1 (the code at the failing input): \<^verbatim>\<open>def empty(): return []\<close> is registered for symbol 1
  with \<^verbatim>\<open>cached=True\<close>. The first resolve stores the list it got; the second finds the
  stored list falsy, invokes the target again and returns a second list with another
  identity. The target has been invoked twice.
\<close>

theorem cached_falsy_instance_rebuilt:
  "map_option (\<lambda>(res, w). (res, calls w))
     (resolve_twice 1 example_env (Container_init None) 1
        (register example_env (Container_init None) 1 (Some 3) True world0))
   = Some (Inr (VList 0 [], VList 1 []), [(0, 3, []), (0, 3, [])])"
  by (simp add: model_defs)


section \<open>Recipes that are not cached\<close>






section \<open>Registering a symbol again\<close>




section \<open>Assembling the arguments of the target\<close>

lemma dict_update_Cons:
  "dict_update d ((k, v) # items) = dict_update (AList.update k v d) items"
  by (simp add: dict_update_def)

lemma resolve_types_spec:
  "resolve_types resolve' items kw w =
     (case spec_overrides resolve' items w of
        None \<Rightarrow> None
      | Some (Inl e, w') \<Rightarrow> Some (Inl e, w')
      | Some (Inr overrides, w') \<Rightarrow> Some (Inr (dict_update kw overrides), w'))"
proof (induction items arbitrary: kw w)
  case Nil
  then show ?case by (simp add: dict_update_def)
next
  case (Cons item items)
  obtain name symbol where item: "item = (name, symbol)" by (cases item)
  show ?case
    by (simp add: item Cons.IH dict_update_Cons
        split: option.splits sum.splits prod.splits)
qed

lemma spec_overrides_names:
  "spec_overrides resolve' items w = Some (Inr overrides, w') \<Longrightarrow>
     fst ` set overrides \<subseteq> fst ` set items
     \<and> (distinct (map fst items) \<longrightarrow> distinct (map fst overrides))"
proof (induction items arbitrary: w overrides)
  case Nil
  then show ?case by simp
next
  case (Cons item items)
  obtain name symbol where item: "item = (name, symbol)" by (cases item)
  from Cons.prems obtain v w1 ovr where
    r: "resolve' symbol w = Some (Inr v, w1)"
    and t: "spec_overrides resolve' items w1 = Some (Inr ovr, w')"
    and o: "overrides = (if v \<noteq> VNone then (name, v) # ovr else ovr)"
    by (auto simp: item split: option.splits sum.splits)
  from Cons.IH[OF t] show ?case by (auto simp: item o)
qed

lemma spec_overrides_unregistered:
  assumes "spec_overrides (resolve n env c) items w = Some (Inr overrides, w')"
      and "(p, ty) \<in> set items"
      and "\<not> has c ty w"
      and "distinct (map fst items)"
  shows "p \<notin> fst ` set overrides"
  using assms
proof (induction items arbitrary: w overrides)
  case Nil
  then show ?case by simp
next
  case (Cons item items)
  obtain name symbol where item: "item = (name, symbol)" by (cases item)
  from Cons.prems(1) obtain v w1 ovr where
    r: "resolve n env c symbol w = Some (Inr v, w1)"
    and t: "spec_overrides (resolve n env c) items w1 = Some (Inr ovr, w')"
    and o: "overrides = (if v \<noteq> VNone then (name, v) # ovr else ovr)"
    by (auto simp: item split: option.splits sum.splits)
  have k: "recipes_kept w w1" using resolve_kept[OF r] .
  from spec_overrides_names[OF t] have sub: "fst ` set ovr \<subseteq> fst ` set items" by simp
  show ?case
  proof (cases "(p, ty) = (name, symbol)")
    case True
    with Cons.prems(3) r have "v = VNone"
      by (cases n) (auto simp: has_def)
    moreover from True Cons.prems(4) sub have "p \<notin> fst ` set ovr" by (auto simp: item)
    ultimately show ?thesis by (simp add: o)
  next
    case False
    with Cons.prems(2) have m: "(p, ty) \<in> set items" by (auto simp: item)
    from Cons.prems(3) k have h: "\<not> has c ty w1" by (simp add: has_def recipes_kept_def)
    from Cons.prems(4) have dd: "distinct (map fst items)" by simp
    from Cons.IH[OF t m h dd] have "p \<notin> fst ` set ovr" .
    moreover from m Cons.prems(4) have "p \<noteq> name" by (force simp: item)
    ultimately show ?thesis by (simp add: o)
  qed
qed

lemma map_of_rev_distinct:
  "distinct (map fst xs) \<Longrightarrow> map_of (rev xs) = map_of xs"
  by (simp add: map_of_inject_set rev_map [symmetric])

lemma Dependency_resolve_invokes:
  assumes "cached (deps w d) \<longrightarrow> \<not> truthy (instance' (deps w d))"
  shows "fst (Dependency_resolve env d kw w) = call (env (target (deps w d))) kw (next_oid w)
       \<and> calls (snd (Dependency_resolve env d kw w)) = calls w @ [(d, target (deps w d), kw)]"
  using assms
  by (auto simp: Dependency_resolve_def invoke_target_def Let_def split: sum.splits)

text \<open>
  C3: for a registered symbol, resolve passes to the recipe the keyword arguments that
  the loop has assembled, and a recipe that invokes its target calls it with exactly
  these. They are the recipe's defaults overridden by the overrides of the specification:
  every parameter whose declared type resolved to a value other than \<^verbatim>\<open>None\<close> carries that
  value, also when it has a literal default, and a parameter whose declared type is not
  registered keeps its literal default.
\<close>

theorem resolve_assembles_arguments:
  assumes reg: "dicts w (dependencies c) s = Some d"
      and dd: "distinct (map fst (defaults (deps w d)))"
      and dt: "distinct (map fst (types (deps w d)))"
      and loop: "resolve_types (resolve n env c) (types (deps w d))
                   (dict_update [] (defaults (deps w d))) w = Some (Inr kw, w1)"
  shows "resolve (Suc n) env c s w = Some (Dependency_resolve env d kw w1)
       \<and> ((cached (deps w1 d) \<longrightarrow> \<not> truthy (instance' (deps w1 d))) \<longrightarrow>
            fst (Dependency_resolve env d kw w1)
              = call (env (target (deps w d))) kw (next_oid w1)
            \<and> calls (snd (Dependency_resolve env d kw w1))
              = calls w1 @ [(d, target (deps w d), kw)])
       \<and> (\<exists>overrides.
            spec_overrides (resolve n env c) (types (deps w d)) w = Some (Inr overrides, w1)
            \<and> map_of kw = spec_arguments (defaults (deps w d)) overrides
            \<and> (\<forall>p v. (p, v) \<in> set overrides \<longrightarrow> map_of kw p = Some v)
            \<and> (\<forall>p ty. (p, ty) \<in> set (types (deps w d)) \<and> \<not> has c ty w \<longrightarrow>
                  map_of kw p = map_of (defaults (deps w d)) p))"
proof -
  let ?D = "defaults (deps w d)"
  let ?T = "types (deps w d)"
  from reg loop have a: "resolve (Suc n) env c s w = Some (Dependency_resolve env d kw w1)"
    by simp
  have k: "recipes_kept w w1"
    using resolve_types_kept[of "resolve n env c", OF resolve_kept loop] .
  have tg: "target (deps w1 d) = target (deps w d)" using recipes_kept_fields(1)[OF k] .
  have b: "(cached (deps w1 d) \<longrightarrow> \<not> truthy (instance' (deps w1 d))) \<longrightarrow>
            fst (Dependency_resolve env d kw w1)
              = call (env (target (deps w d))) kw (next_oid w1)
            \<and> calls (snd (Dependency_resolve env d kw w1))
              = calls w1 @ [(d, target (deps w d), kw)]"
    using Dependency_resolve_invokes[of w1 d env kw] tg by simp
  from loop obtain ovr where
    so: "spec_overrides (resolve n env c) ?T w = Some (Inr ovr, w1)"
    and kw: "kw = dict_update (dict_update [] ?D) ovr"
    by (auto simp: resolve_types_spec split: option.splits sum.splits)
  from spec_overrides_names[OF so] dt have od: "distinct (map fst ovr)" by simp
  have m: "map_of kw = spec_arguments ?D ovr"
    by (simp add: kw map_of_dict_update spec_arguments_def map_of_rev_distinct dd od)
  have wins: "\<forall>p v. (p, v) \<in> set ovr \<longrightarrow> map_of kw p = Some v"
    using od by (simp add: m spec_arguments_def map_add_Some_iff)
  have keeps: "\<forall>p ty. (p, ty) \<in> set ?T \<and> \<not> has c ty w \<longrightarrow> map_of kw p = map_of ?D p"
  proof (intro allI impI)
    fix p ty
    assume h: "(p, ty) \<in> set ?T \<and> \<not> has c ty w"
    then have "p \<notin> fst ` set ovr"
      using spec_overrides_unregistered[OF so _ _ dt] by blast
    then have "map_of ovr p = None" by (simp add: map_of_eq_None_iff)
    then show "map_of kw p = map_of ?D p"
      by (simp add: m spec_arguments_def map_add_def)
  qed
  from a b so m wins keeps show ?thesis by blast
qed

theorem resolve_assembles_arguments_witness:
  "dicts (register example_env (Container_init None) 1 None False
            (register example_env (Container_init None) 8 None False world0))
     (dependencies (Container_init None)) 8 = Some 0
   \<and> map_option fst
        (resolve_types (resolve (Suc 0) example_env (Container_init None))
           [(''db'', 1), (''port'', 7)] (dict_update [] [(''db'', VNone), (''port'', VInt 3)])
           (register example_env (Container_init None) 1 None False
              (register example_env (Container_init None) 8 None False world0)))
       = Some (Inr [(''db'', VObj 0 1 []), (''port'', VInt 3)])
   \<and> map_option fst
        (resolve (Suc (Suc 0)) example_env (Container_init None) 8
           (register example_env (Container_init None) 1 None False
              (register example_env (Container_init None) 8 None False world0)))
       = Some (fst (Dependency_resolve example_env 0 [(''db'', VObj 0 1 []), (''port'', VInt 3)]
           (snd (the (resolve_types (resolve (Suc 0) example_env (Container_init None))
              [(''db'', 1), (''port'', 7)] (dict_update [] [(''db'', VNone), (''port'', VInt 3)])
              (register example_env (Container_init None) 1 None False
                 (register example_env (Container_init None) 8 None False world0)))))))
   \<and> map_option fst
        (resolve (Suc (Suc 0)) example_env (Container_init None) 8
           (register example_env (Container_init None) 1 None False
              (register example_env (Container_init None) 8 None False world0)))
       = Some (Inr (VObj 1 8 [(''db'', VObj 0 1 []), (''port'', VInt 3)]))"
proof -
  let ?c = "Container_init None"
  let ?w = "register example_env ?c 1 None False (register example_env ?c 8 None False world0)"
  let ?kw = "[(''db'', VObj 0 1 []), (''port'', VInt 3)]"
  let ?loop = "resolve_types (resolve (Suc 0) example_env ?c)
                 [(''db'', 1), (''port'', 7)] (dict_update [] [(''db'', VNone), (''port'', VInt 3)]) ?w"
  have reg: "dicts ?w (dependencies ?c) 8 = Some 0" by (simp add: model_defs)
  have D: "defaults (deps ?w 0) = [(''db'', VNone), (''port'', VInt 3)]"
    by (simp add: model_defs)
  have T: "types (deps ?w 0) = [(''db'', 1), (''port'', 7)]"
    by (simp add: model_defs)
  have dd: "distinct (map fst (defaults (deps ?w 0)))" by (simp add: model_defs)
  have dt: "distinct (map fst (types (deps ?w 0)))" by (simp add: model_defs)
  have l: "?loop = Some (Inr ?kw, snd (the ?loop))" by (simp add: model_defs)
  have loop: "resolve_types (resolve (Suc 0) example_env ?c) (types (deps ?w 0))
                (dict_update [] (defaults (deps ?w 0))) ?w = Some (Inr ?kw, snd (the ?loop))"
    unfolding D T by (rule l)
  note R = resolve_assembles_arguments [OF reg dd dt loop]
  from R have a: "resolve (Suc (Suc 0)) example_env ?c 8 ?w
                    = Some (Dependency_resolve example_env 0 ?kw (snd (the ?loop)))"
    by (rule conjunct1)
  from a have a': "map_option fst (resolve (Suc (Suc 0)) example_env ?c 8 ?w)
                    = Some (fst (Dependency_resolve example_env 0 ?kw (snd (the ?loop))))"
    by (simp only: option.map)
  have l': "map_option fst ?loop = Some (Inr ?kw)" by (simp add: model_defs)
  have e: "map_option fst (resolve (Suc (Suc 0)) example_env ?c 8 ?w)
             = Some (Inr (VObj 1 8 ?kw))"
    by (simp add: model_defs)
  from reg l' a' e show ?thesis by blast
qed


section \<open>Recursive resolution\<close>




































section \<open>The synthesized constructor: missing arguments\<close>

lemma fill_field_kept:
  "fill_field (resolve n env c) c bound f w = Some (r, w') \<Longrightarrow> recipes_kept w w'"
  by (auto simp: fill_field_def recipes_kept_refl dest: resolve_kept
      split: option.splits if_splits sum.splits prod.splits)

lemma fill_field_slot:
  assumes "fill_field (resolve n env c) c bound f w = Some (Inr slot, w')"
  shows "(slot = None \<longrightarrow> map_of bound (fname f) = None \<and> fdefault f = None)
       \<and> (map_of bound (fname f) = None \<and> fdefault f = None \<and> \<not> has c (ftype f) w
            \<longrightarrow> slot = None)"
  using assms
  by (auto simp: fill_field_def split: option.splits if_splits sum.splits prod.splits)

lemma fill_fields_slots:
  assumes "fill_fields (resolve n env c) c bound fs w = Some (Inr slots, w')"
  shows "list_all2 (\<lambda>f (name, slot). name = fname f
            \<and> (slot = None \<longrightarrow> map_of bound (fname f) = None \<and> fdefault f = None)
            \<and> (map_of bound (fname f) = None \<and> fdefault f = None \<and> \<not> has c (ftype f) w
                 \<longrightarrow> slot = None)) fs slots"
  using assms
proof (induction fs arbitrary: w slots)
  case Nil
  then show ?case by simp
next
  case (Cons f fs)
  from Cons.prems obtain slot w1 rest where
    a: "fill_field (resolve n env c) c bound f w = Some (Inr slot, w1)"
    and b: "fill_fields (resolve n env c) c bound fs w1 = Some (Inr rest, w')"
    and s: "slots = (fname f, slot) # rest"
    by (auto split: option.splits sum.splits prod.splits)
  have k: "recipes_kept w w1" using fill_field_kept[OF a] .
  then have h: "\<And>t. has c t w1 = has c t w" by (simp add: has_def recipes_kept_def)
  let ?Q = "\<lambda>w f (name, slot). name = fname f
            \<and> (slot = None \<longrightarrow> map_of bound (fname f) = None \<and> fdefault f = None)
            \<and> (map_of bound (fname f) = None \<and> fdefault f = None \<and> \<not> has c (ftype f) w
                 \<longrightarrow> slot = None)"
  have tl: "list_all2 (?Q w) fs rest" using Cons.IH[OF b] unfolding h .
  have hd: "?Q w f (fname f, slot)"
    by (unfold prod.case) (rule conjI[OF refl fill_field_slot[OF a]])
  show ?case unfolding s by (rule list_all2_Cons[THEN iffD2, OF conjI[OF hd tl]])
qed

lemma missing_iff: "name \<in> set (missing slots) \<longleftrightarrow> (name, None) \<in> set slots"
  by (auto simp: missing_def image_iff)

lemma fill_fields_names:
  "fill_fields resolve' c bound fs w = Some (Inr slots, w') \<Longrightarrow> map fst slots = map fname fs"
  by (induction fs arbitrary: w slots)
     (auto split: option.splits sum.splits prod.splits)

text \<open>
  C9: when a call passes the binding of its explicit arguments and, after registry
  auto-fill and literal defaults, one or more fields are still unresolved, the constructor
  fails with the single error MissingArguments and builds no object. Its message is the
  prefix followed by the comma-joined missing names. The names are field names; no field
  with an explicit argument or a default and no field that was resolved is among them;
  and every field with no argument, no default and no registered type is among them.
\<close>

theorem missing_arguments_aggregated:
  assumes pos: "bind_positional fs positional = Inr pos"
      and nmd: "bind_named fs pos named = Inr nmd"
      and fill: "fill_fields (resolve n env c) c (pos @ nmd) fs w = Some (Inr slots, w')"
      and some: "missing slots \<noteq> []"
      and names: "distinct (map fname fs)"
  shows "construct n env isinstance c cls fs positional named w
           = Some (Inl (MissingArguments (missing slots)), w')
       \<and> missing_arguments_message (missing slots)
           = ''Missing arguments: '' @ comma_join (missing slots)
       \<and> set (missing slots) \<subseteq> fname ` set fs
       \<and> (\<forall>f\<in>set fs. fname f \<in> set (missing slots) \<longrightarrow>
             map_of (pos @ nmd) (fname f) = None \<and> fdefault f = None)
       \<and> (\<forall>name v. (name, Some v) \<in> set slots \<longrightarrow> name \<notin> set (missing slots))
       \<and> (\<forall>f\<in>set fs. map_of (pos @ nmd) (fname f) = None \<and> fdefault f = None
                         \<and> \<not> has c (ftype f) w
             \<longrightarrow> fname f \<in> set (missing slots))"
proof -
  have c1: "construct n env isinstance c cls fs positional named w
              = Some (Inl (MissingArguments (missing slots)), w')"
    using pos nmd fill some by (simp add: construct_def)
  have ns: "map fst slots = map fname fs" using fill by (rule fill_fields_names)
  with names have ds: "distinct (map fst slots)" by simp
  have sub: "set (missing slots) \<subseteq> fname ` set fs"
  proof
    fix x assume "x \<in> set (missing slots)"
    then have "(x, None) \<in> set slots" by (simp add: missing_iff)
    then have "x \<in> fst ` set slots" by (rule rev_image_eqI) simp
    then have "x \<in> set (map fst slots)" by simp
    with ns show "x \<in> fname ` set fs" by simp
  qed
  note L = fill_fields_slots[OF fill]
  have per: "\<forall>f\<in>set fs. \<exists>slot. (fname f, slot) \<in> set slots
               \<and> (slot = None \<longrightarrow> map_of (pos @ nmd) (fname f) = None \<and> fdefault f = None)
               \<and> (map_of (pos @ nmd) (fname f) = None \<and> fdefault f = None
                     \<and> \<not> has c (ftype f) w \<longrightarrow> slot = None)"
  proof
    fix f assume "f \<in> set fs"
    then obtain i where i: "i < length fs" "fs ! i = f" by (auto simp: in_set_conv_nth)
    from L i(1) have len: "i < length slots" by (simp add: list_all2_lengthD)
    obtain name slot where e: "slots ! i = (name, slot)" by (cases "slots ! i")
    from len e have mem: "(name, slot) \<in> set slots" by (metis nth_mem)
    from L i(1) have "(\<lambda>f (name, slot). name = fname f
            \<and> (slot = None \<longrightarrow> map_of (pos @ nmd) (fname f) = None \<and> fdefault f = None)
            \<and> (map_of (pos @ nmd) (fname f) = None \<and> fdefault f = None \<and> \<not> has c (ftype f) w
                 \<longrightarrow> slot = None)) (fs ! i) (slots ! i)"
      by (rule list_all2_nthD)
    then have "name = fname f
            \<and> (slot = None \<longrightarrow> map_of (pos @ nmd) (fname f) = None \<and> fdefault f = None)
            \<and> (map_of (pos @ nmd) (fname f) = None \<and> fdefault f = None \<and> \<not> has c (ftype f) w
                 \<longrightarrow> slot = None)"
      unfolding e i(2) prod.case .
    with mem show "\<exists>slot. (fname f, slot) \<in> set slots
               \<and> (slot = None \<longrightarrow> map_of (pos @ nmd) (fname f) = None \<and> fdefault f = None)
               \<and> (map_of (pos @ nmd) (fname f) = None \<and> fdefault f = None
                     \<and> \<not> has c (ftype f) w \<longrightarrow> slot = None)"
      by blast
  qed
  have uniq: "\<And>name s t. (name, s) \<in> set slots \<Longrightarrow> (name, t) \<in> set slots \<Longrightarrow> s = t"
    using ds by (rule eq_key_imp_eq_value)
  have notdef: "\<forall>f\<in>set fs. fname f \<in> set (missing slots) \<longrightarrow>
             map_of (pos @ nmd) (fname f) = None \<and> fdefault f = None"
  proof (intro ballI impI)
    fix f assume f: "f \<in> set fs" and m: "fname f \<in> set (missing slots)"
    from per f obtain slot where sl: "(fname f, slot) \<in> set slots"
      "slot = None \<longrightarrow> map_of (pos @ nmd) (fname f) = None \<and> fdefault f = None" by blast
    from m have "(fname f, None) \<in> set slots" by (simp add: missing_iff)
    with sl(1) have "slot = None" by (rule uniq)
    with sl(2) show "map_of (pos @ nmd) (fname f) = None \<and> fdefault f = None" by simp
  qed
  have notres: "\<forall>name v. (name, Some v) \<in> set slots \<longrightarrow> name \<notin> set (missing slots)"
  proof (intro allI impI notI)
    fix name v assume "(name, Some v) \<in> set slots" and "name \<in> set (missing slots)"
    then have "(name, Some v) \<in> set slots" "(name, None) \<in> set slots"
      by (simp_all add: missing_iff)
    then have "Some v = None" by (rule uniq)
    then show False by simp
  qed
  have every: "\<forall>f\<in>set fs. map_of (pos @ nmd) (fname f) = None \<and> fdefault f = None
                         \<and> \<not> has c (ftype f) w
             \<longrightarrow> fname f \<in> set (missing slots)"
  proof (intro ballI impI)
    fix f assume f: "f \<in> set fs"
      and h: "map_of (pos @ nmd) (fname f) = None \<and> fdefault f = None \<and> \<not> has c (ftype f) w"
    from per f obtain slot where sl: "(fname f, slot) \<in> set slots"
      "map_of (pos @ nmd) (fname f) = None \<and> fdefault f = None
         \<and> \<not> has c (ftype f) w \<longrightarrow> slot = None" by blast
    with h have "(fname f, None) \<in> set slots" by blast
    then show "fname f \<in> set (missing slots)" by (simp add: missing_iff)
  qed
  have msg: "missing_arguments_message (missing slots)
               = ''Missing arguments: '' @ comma_join (missing slots)"
    by (simp add: missing_arguments_message_def)
  show ?thesis
    by (rule conjI[OF c1 conjI[OF msg conjI[OF sub conjI[OF notdef conjI[OF notres every]]]]])
qed


theorem missing_arguments_aggregated_witness:
  "bind_positional MultiClass_fields [] = Inr []
   \<and> bind_named MultiClass_fields [] [(''a'', VInt 1), (''c'', VBool True)]
       = Inr [(''a'', VInt 1), (''c'', VBool True)]
   \<and> fill_fields (resolve 1 example_env (Container_init None)) (Container_init None)
        [(''a'', VInt 1), (''c'', VBool True)] MultiClass_fields world0
       = Some (Inr [(''a'', Some (VInt 1)), (''b'', None), (''c'', Some (VBool True)), (''d'', None)],
               world0)
   \<and> construct 1 example_env example_isinstance (Container_init None) 15 MultiClass_fields
        [] [(''a'', VInt 1), (''c'', VBool True)] world0
       = Some (Inl (MissingArguments [''b'', ''d'']), world0)
   \<and> missing_arguments_message [''b'', ''d''] = ''Missing arguments: b, d''"
proof -
  let ?c = "Container_init None"
  let ?named = "[(''a'', VInt 1), (''c'', VBool True)]"
  let ?slots = "[(''a'', Some (VInt 1)), (''b'', None), (''c'', Some (VBool True)), (''d'', None)]"
  have pos: "bind_positional MultiClass_fields [] = Inr []" by simp
  have nmd: "bind_named MultiClass_fields [] ?named = Inr ?named"
    by (simp add: MultiClass_fields_def)
  have fill: "fill_fields (resolve 1 example_env ?c) ?c ([] @ ?named) MultiClass_fields world0
                = Some (Inr ?slots, world0)"
    by (simp add: MultiClass_fields_def fill_field_def has_def world0_def Container_init_def)
  have m: "missing ?slots = [''b'', ''d'']" by (simp add: missing_def)
  then have some: "missing ?slots \<noteq> []" by simp
  have names: "distinct (map fname MultiClass_fields)" by (simp add: MultiClass_fields_def)
  note T = missing_arguments_aggregated
             [OF pos nmd fill some names, of example_isinstance 15]
  from T have "construct 1 example_env example_isinstance ?c 15 MultiClass_fields [] ?named world0
                 = Some (Inl (MissingArguments (missing ?slots)), world0)"
    by (rule conjunct1)
  then have c: "construct 1 example_env example_isinstance ?c 15 MultiClass_fields [] ?named world0
                 = Some (Inl (MissingArguments [''b'', ''d'']), world0)"
    by (simp only: m)
  have msg: "missing_arguments_message [''b'', ''d''] = ''Missing arguments: b, d''"
    by (simp add: missing_arguments_message_def)
  from fill have fill': "fill_fields (resolve 1 example_env ?c) ?c ?named MultiClass_fields world0
                = Some (Inr ?slots, world0)" by simp
  show ?thesis
    by (rule conjI[OF pos conjI[OF nmd conjI[OF fill' conjI[OF c msg]]]])
qed

section \<open>The synthesized constructor: registry before default\<close>

lemma fill_fields_append:
  "fill_fields r c bound (xs @ ys) w =
     (case fill_fields r c bound xs w of
        None \<Rightarrow> None
      | Some (Inl e, w') \<Rightarrow> Some (Inl e, w')
      | Some (Inr s1, w') \<Rightarrow>
          (case fill_fields r c bound ys w' of
             None \<Rightarrow> None
           | Some (Inl e, w'') \<Rightarrow> Some (Inl e, w'')
           | Some (Inr s2, w'') \<Rightarrow> Some (Inr (s1 @ s2), w'')))"
  by (induction xs arbitrary: w)
     (auto split: option.splits sum.splits prod.splits)

lemma assigned_mem: "(k, v) \<in> set (assigned slots) \<longleftrightarrow> (k, Some v) \<in> set slots"
  by (induction slots) (auto simp: assigned_def List.map_filter_simps split: option.splits)

lemma assigned_distinct:
  "distinct (map fst slots) \<Longrightarrow> distinct (map fst (assigned slots))"
proof (induction slots)
  case Nil
  then show ?case by (simp add: assigned_def List.map_filter_simps)
next
  case (Cons x slots)
  obtain k slot where x: "x = (k, slot)" by (cases x)
  have a: "assigned (x # slots)
             = (case slot of None \<Rightarrow> assigned slots | Some v \<Rightarrow> (k, v) # assigned slots)"
    by (simp add: assigned_def List.map_filter_simps x split: option.splits)
  from Cons.prems have "k \<notin> fst ` set slots" by (simp add: x)
  then have "k \<notin> fst ` set (assigned slots)" by (force simp: assigned_mem)
  with Cons show ?case by (simp add: a split: option.splits)
qed

text \<open>
  C8: in the fallback chain of a field \<open>f\<close> that was not supplied, the Registry comes
  before the literal default. When the declared type of \<open>f\<close> is registered and resolves
  to a value, the constructed object holds that value in \<open>f\<close>, whatever literal default
  \<open>f\<close> carries. The fields before and after \<open>f\<close> are filled, and the explicit arguments
  pass the type check.
\<close>

theorem registry_before_default:
  assumes pos: "bind_positional (pre @ f # post) positional = Inr pos"
      and nmd: "bind_named (pre @ f # post) pos named = Inr nmd"
      and omitted: "map_of (pos @ nmd) (fname f) = None"
      and before: "fill_fields (resolve n env c) c (pos @ nmd) pre w = Some (Inr slots1, w1)"
      and registered: "has c (ftype f) w1"
      and resolved: "resolve n env c (ftype f) w1 = Some (Inr v, w2)"
      and found: "v \<noteq> VNone"
      and after: "fill_fields (resolve n env c) c (pos @ nmd) post w2 = Some (Inr slots2, w3)"
      and complete: "missing (slots1 @ slots2) = []"
      and typed: "type_check isinstance (pos @ nmd) (pre @ f # post) = None"
      and names: "distinct (map fname (pre @ f # post))"
  shows "\<exists>attrs. construct n env isinstance c cls (pre @ f # post) positional named w
                  = Some (Inr (VObj (next_oid w3) cls attrs), w3\<lparr>next_oid := Suc (next_oid w3)\<rparr>)
               \<and> map_of attrs (fname f) = Some v"
proof -
  let ?slots = "slots1 @ (fname f, Some v) # slots2"
  have one: "fill_field (resolve n env c) c (pos @ nmd) f w1 = Some (Inr (Some v), w2)"
    using omitted registered resolved found by (simp add: fill_field_def del: map_of_append)
  have tail: "fill_fields (resolve n env c) c (pos @ nmd) (f # post) w1
                = Some (Inr ((fname f, Some v) # slots2), w3)"
    using one after by simp
  have fill: "fill_fields (resolve n env c) c (pos @ nmd) (pre @ f # post) w
                = Some (Inr ?slots, w3)"
    using before tail by (simp add: fill_fields_append del: fill_fields.simps)
  have none: "missing ?slots = []" using complete by (simp add: missing_def)
  have c: "construct n env isinstance c cls (pre @ f # post) positional named w
             = Some (Inr (VObj (next_oid w3) cls (assigned ?slots)),
                     w3\<lparr>next_oid := Suc (next_oid w3)\<rparr>)"
    using pos nmd fill none typed by (simp add: construct_def del: fill_fields.simps)
  have "map fst ?slots = map fname (pre @ f # post)" using fill by (rule fill_fields_names)
  with names have "distinct (map fst ?slots)" by simp
  then have d: "distinct (map fst (assigned ?slots))" by (rule assigned_distinct)
  have "(fname f, v) \<in> set (assigned ?slots)" by (simp add: assigned_mem)
  with d have "map_of (assigned ?slots) (fname f) = Some v" by simp
  with c show ?thesis by blast
qed

theorem registry_before_default_witness:
  "fdefault \<lparr>fname = ''db'', ftype = 13, fdefault = Some VNone\<rparr> = Some VNone
   \<and> has (Container_init None) 13
        (register example_env (Container_init None) 13 (Some 13) False
           (register example_env (Container_init None) 12 (Some 12) False world0))
   \<and> map_option fst
        (construct 1 example_env example_isinstance (Container_init None) 16
           ([\<lparr>fname = ''name'', ftype = 9, fdefault = None\<rparr>,
             \<lparr>fname = ''logger'', ftype = 12, fdefault = None\<rparr>]
            @ \<lparr>fname = ''db'', ftype = 13, fdefault = Some VNone\<rparr>
            # [\<lparr>fname = ''config'', ftype = 14, fdefault = Some VNone\<rparr>])
           [VStr ''MyService''] []
           (register example_env (Container_init None) 13 (Some 13) False
              (register example_env (Container_init None) 12 (Some 12) False world0)))
       = Some (Inr (VObj 2 16
                 [(''name'', VStr ''MyService''),
                  (''logger'', VObj 0 12 [(''level'', VStr ''INFO'')]),
                  (''db'', VObj 1 13 [(''connected'', VBool True)]),
                  (''config'', VNone)]))
   \<and> (\<exists>i attrs w'.
         construct 1 example_env example_isinstance (Container_init None) 16
           ([\<lparr>fname = ''name'', ftype = 9, fdefault = None\<rparr>,
             \<lparr>fname = ''logger'', ftype = 12, fdefault = None\<rparr>]
            @ \<lparr>fname = ''db'', ftype = 13, fdefault = Some VNone\<rparr>
            # [\<lparr>fname = ''config'', ftype = 14, fdefault = Some VNone\<rparr>])
           [VStr ''MyService''] []
           (register example_env (Container_init None) 13 (Some 13) False
              (register example_env (Container_init None) 12 (Some 12) False world0))
           = Some (Inr (VObj i 16 attrs), w')
         \<and> map_of attrs ''db'' = Some (VObj 1 13 [(''connected'', VBool True)]))"
proof -
  let ?c = "Container_init None"
  let ?w = "register example_env ?c 13 (Some 13) False
              (register example_env ?c 12 (Some 12) False world0)"
  let ?pre = "[\<lparr>fname = ''name'', ftype = 9, fdefault = None\<rparr>,
               \<lparr>fname = ''logger'', ftype = 12, fdefault = None\<rparr>]"
  let ?f = "\<lparr>fname = ''db'', ftype = 13, fdefault = Some VNone\<rparr>"
  let ?post = "[\<lparr>fname = ''config'', ftype = 14, fdefault = Some VNone\<rparr>]"
  let ?bound = "[(''name'', VStr ''MyService'')]"
  let ?r = "resolve 1 example_env ?c"
  let ?s1 = "[(''name'', Some (VStr ''MyService'')),
              (''logger'', Some (VObj 0 12 [(''level'', VStr ''INFO'')]))]"
  let ?w1 = "snd (the (fill_fields ?r ?c (?bound @ []) ?pre ?w))"
  let ?v = "VObj 1 13 [(''connected'', VBool True)]"
  let ?w2 = "snd (the (?r 13 ?w1))"
  let ?s2 = "[(''config'', Some VNone)]"
  let ?w3 = "snd (the (fill_fields ?r ?c (?bound @ []) ?post ?w2))"
  note ev = model_defs fill_field_def missing_def assigned_def
  have pos: "bind_positional (?pre @ ?f # ?post) [VStr ''MyService''] = Inr ?bound" by simp
  have nmd: "bind_named (?pre @ ?f # ?post) ?bound [] = Inr []" by simp
  have omitted: "map_of (?bound @ []) (fname ?f) = None" by simp
  have before: "fill_fields ?r ?c (?bound @ []) ?pre ?w = Some (Inr ?s1, ?w1)"
    by (simp add: ev)
  have registered: "has ?c (ftype ?f) ?w1" by (simp add: ev)
  have resolved: "?r (ftype ?f) ?w1 = Some (Inr ?v, ?w2)" by (simp add: ev)
  have found: "?v \<noteq> VNone" by simp
  have after: "fill_fields ?r ?c (?bound @ []) ?post ?w2 = Some (Inr ?s2, ?w3)"
    by (simp add: ev)
  have complete: "missing (?s1 @ ?s2) = []" by (simp add: missing_def)
  have typed: "type_check example_isinstance (?bound @ []) (?pre @ ?f # ?post) = None" by simp
  have names: "distinct (map fname (?pre @ ?f # ?post))" by simp
  note T = registry_before_default
             [OF pos nmd omitted before registered resolved found after complete typed names,
              of 16]
  from T have ex: "\<exists>i attrs w'.
         construct 1 example_env example_isinstance ?c 16 (?pre @ ?f # ?post)
           [VStr ''MyService''] [] ?w = Some (Inr (VObj i 16 attrs), w')
         \<and> map_of attrs ''db'' = Some ?v"
    by (simp only: field.simps) blast
  have d: "fdefault ?f = Some VNone" by simp
  have h: "has ?c 13 ?w" by (simp add: ev)
  have e: "map_option fst
        (construct 1 example_env example_isinstance ?c 16 (?pre @ ?f # ?post)
           [VStr ''MyService''] [] ?w)
       = Some (Inr (VObj 2 16
                 [(''name'', VStr ''MyService''),
                  (''logger'', VObj 0 12 [(''level'', VStr ''INFO'')]),
                  (''db'', ?v), (''config'', VNone)]))"
    by (simp add: ev construct_def)
  show ?thesis by (rule conjI[OF d conjI[OF h conjI[OF e ex]]])
qed

end
